theory Spec2Isabelle
  imports Main "HOL-Library.Word"
begin

section \<open>Values of the JavaScript program\<close>

text \<open>
  A JavaScript string is a sequence of UTF-16 code units; a Buffer is a sequence of bytes.
  Numbers that the server handles as identifiers and timestamps are integers far below
  \<open>2^53\<close>, where JavaScript arithmetic is exact; they are modelled by \<open>int\<close> and \<open>nat\<close>.
\<close>

type_synonym jsstring = "16 word list"
type_synonym bytes = "8 word list"

definition ascii :: "string \<Rightarrow> jsstring" where
  "ascii s = map (\<lambda>c. word_of_nat (of_char c)) s"

text \<open>
  \<open>String.prototype.trim\<close> removes, at both ends, the code units of the ECMAScript
  productions WhiteSpace (TAB, VT, FF, SP, NBSP, ZWNBSP and the category Zs) and
  LineTerminator (LF, CR, LS, PS).
\<close>

definition isWhiteSpace :: "16 word \<Rightarrow> bool" where
  "isWhiteSpace c \<longleftrightarrow>
     c \<in> set [0x0009, 0x000A, 0x000B, 0x000C, 0x000D, 0x0020, 0x00A0, 0x1680,
              0x2000, 0x2001, 0x2002, 0x2003, 0x2004, 0x2005, 0x2006, 0x2007,
              0x2008, 0x2009, 0x200A, 0x2028, 0x2029, 0x202F, 0x205F, 0x3000, 0xFEFF]"

definition trim :: "jsstring \<Rightarrow> jsstring" where
  "trim s = rev (dropWhile isWhiteSpace (rev (dropWhile isWhiteSpace s)))"

text \<open>
  The decimal digits of a natural number, most significant first, as \<open>Number::toString\<close>
  prints a non-negative integer below \<open>10^21\<close>; a negative integer gets a minus sign.
\<close>

fun decimal :: "nat \<Rightarrow> jsstring" where
  "decimal n = (if n < 10 then [word_of_nat (48 + n)]
                else decimal (n div 10) @ [word_of_nat (48 + n mod 10)])"

declare decimal.simps [simp del]

definition numberToString :: "int \<Rightarrow> jsstring" where
  "numberToString i = (if i < 0 then ascii ''-'' @ decimal (nat (- i)) else decimal (nat i))"

text \<open>
  A value found in a parsed JSON request body; \<open>JUndefined\<close> is a property that is absent.
  Only \<open>typeof\<close> of such a value is inspected by the server.
\<close>

datatype jsvalue =
    JUndefined
  | JNull
  | JBool bool
  | JNumber int
  | JString jsstring
  | JObject

section \<open>Todos, the object store and the process state\<close>

text \<open>
  A todo object literal of the source. The fields \<open>id\<close> and \<open>text\<close> are written
  \<open>todo_id\<close> and \<open>todo_text\<close>; \<open>photoFilename\<close> is \<open>null\<close> (\<open>None\<close>) or a string.
\<close>

record todo =
  todo_id :: int
  todo_text :: jsstring
  completed :: bool
  hasPhoto :: bool
  photoFilename :: "jsstring option"

text \<open>An object of the bucket: its bytes and the content type of its metadata.\<close>

record gcs_object =
  content :: bytes
  contentType :: jsstring

type_synonym gcs_bucket = "jsstring \<rightharpoonup> gcs_object"

text \<open>
  The module-level variables \<open>todos\<close>, \<open>nextId\<close> and \<open>bucket\<close>. \<open>bucket\<close> is \<open>null\<close>
  (\<open>None\<close>) when \<open>BUCKET_NAME\<close> is not set; otherwise the handle stands for the objects
  that the bucket holds.
\<close>

record state =
  todos :: "todo list"
  nextId :: int
  bucket :: "gcs_bucket option"

definition seed_todos :: "todo list" where
  "seed_todos =
     [\<lparr>todo_id = 1, todo_text = ascii ''Welcome to your todo app!'', completed = False,
        hasPhoto = False, photoFilename = None\<rparr>,
      \<lparr>todo_id = 2, todo_text = ascii ''Add your first todo'', completed = False,
        hasPhoto = False, photoFilename = None\<rparr>]"

definition initial_state :: "gcs_bucket option \<Rightarrow> state" where
  "initial_state b = \<lparr>todos = seed_todos, nextId = 3, bucket = b\<rparr>"

section \<open>The environment of one request\<close>

text \<open>
  What the outside world answers while one request is handled: the clock, the sharp
  pipeline (\<open>None\<close> when it rejects its input), and whether the calls to the object
  store resolve or reject.
\<close>

record env =
  now :: nat
  sharp :: "bytes \<Rightarrow> bytes option"
  save_ok :: bool
  delete_ok :: bool
  signed_url :: "jsstring \<Rightarrow> jsstring option"

datatype js_error =
    BucketNotConfigured
  | SharpError
  | SaveError
  | DeleteError
  | SignError

text \<open>
  \<open>file.save\<close> and \<open>file.delete\<close> of the storage client: a call that resolves has
  written, respectively removed, the object; a call that rejects has left the bucket as
  it was.
\<close>

definition file_save :: "env \<Rightarrow> jsstring \<Rightarrow> bytes \<Rightarrow> jsstring \<Rightarrow> gcs_bucket \<Rightarrow> js_error + gcs_bucket" where
  "file_save e filename buf ct b =
     (if save_ok e then Inr (b(filename \<mapsto> \<lparr>content = buf, contentType = ct\<rparr>))
      else Inl SaveError)"

definition file_delete :: "env \<Rightarrow> jsstring \<Rightarrow> gcs_bucket \<Rightarrow> js_error + gcs_bucket" where
  "file_delete e filename b =
     (if delete_ok e then Inr (b(filename := None)) else Inl DeleteError)"

section \<open>Responses\<close>

datatype body =
    NoBody
  | ErrorJson string
  | HtmlErrorPage
  | TodoJson todo
  | TodosJson "todo list"
  | PhotoUrlJson jsstring

record response =
  status :: nat
  body :: body

definition error_response :: "nat \<Rightarrow> string \<Rightarrow> response" where
  "error_response code msg = \<lparr>status = code, body = ErrorJson msg\<rparr>"

section \<open>Looking a todo up\<close>

text \<open>
  \<open>parseInt(req.params.id)\<close> is an integer or \<open>NaN\<close> (\<open>None\<close>), and \<open>NaN === t.id\<close> is
  false for every todo.
\<close>

definition matches :: "int option \<Rightarrow> todo \<Rightarrow> bool" where
  "matches rid t \<longleftrightarrow> rid = Some (todo_id t)"

text \<open>
  \<open>Array.prototype.findIndex\<close>; \<open>None\<close> is the result \<open>-1\<close>. \<open>todos.find\<close> returns a
  reference to the element at that index, so that an assignment to a field of the todo
  found is an update of the array at that index.
\<close>

fun findIndex :: "('a \<Rightarrow> bool) \<Rightarrow> 'a list \<Rightarrow> nat option" where
  "findIndex P [] = None"
| "findIndex P (x # xs) = (if P x then Some 0 else map_option Suc (findIndex P xs))"

text \<open>A string is truthy when it is neither \<open>null\<close> nor empty.\<close>

definition truthy :: "jsstring option \<Rightarrow> bool" where
  "truthy v = (case v of None \<Rightarrow> False | Some str \<Rightarrow> str \<noteq> [])"

section \<open>PUT /api/todos/:id\<close>

definition put_todo :: "int option \<Rightarrow> jsvalue \<Rightarrow> state \<Rightarrow> response \<times> state" where
  "put_todo rid completed_v s =
     (case findIndex (matches rid) (todos s) of
        None \<Rightarrow> (error_response 404 ''Todo not found'', s)
      | Some k \<Rightarrow>
          (let s' = (case completed_v of
                       JBool b \<Rightarrow> s\<lparr>todos := (todos s)[k := (todos s ! k)\<lparr>completed := b\<rparr>]\<rparr>
                     | _ \<Rightarrow> s)
           in (\<lparr>status = 200, body = TodoJson (todos s' ! k)\<rparr>, s')))"

section \<open>Uploading a photo\<close>

text \<open>
  \<open>uploadPhotoToGCS(buffer, todoId)\<close>: throws when no bucket is configured, when sharp
  rejects the buffer and when \<open>file.save\<close> rejects; otherwise it returns the file name
  and the bucket holds the optimized buffer under that name.
\<close>

definition uploadPhotoToGCS ::
  "env \<Rightarrow> bytes \<Rightarrow> int \<Rightarrow> gcs_bucket option \<Rightarrow> js_error + (jsstring \<times> gcs_bucket)" where
  "uploadPhotoToGCS e buffer todoId bkt =
     (case bkt of
        None \<Rightarrow> Inl BucketNotConfigured
      | Some b \<Rightarrow>
          (case sharp e buffer of
             None \<Rightarrow> Inl SharpError
           | Some optimizedBuffer \<Rightarrow>
               (let filename = ascii ''todos/'' @ numberToString todoId @ ascii ''/''
                                 @ decimal (now e) @ ascii ''.jpg''
                in case file_save e filename optimizedBuffer (ascii ''image/jpeg'') b of
                     Inl err \<Rightarrow> Inl err
                   | Inr b' \<Rightarrow> Inr (filename, b'))))"

text \<open>
  \<open>getSignedUrl(filename)\<close>: \<open>null\<close> without a bucket or a file name, the signed URL
  otherwise; it throws when the storage client rejects.
\<close>

definition getSignedUrl :: "env \<Rightarrow> jsstring option \<Rightarrow> gcs_bucket option \<Rightarrow> js_error + jsstring option" where
  "getSignedUrl e filename bkt =
     (if bkt = None \<or> \<not> truthy filename then Inr None
      else case filename of
             None \<Rightarrow> Inr None
           | Some name \<Rightarrow>
               (case signed_url e name of None \<Rightarrow> Inl SignError | Some url \<Rightarrow> Inr (Some url)))"

section \<open>The multipart upload\<close>

text \<open>
  The file part \<open>photo\<close> of a multipart request, as multer sees it: the declared MIME
  type and the bytes.
\<close>

record upload =
  mimetype :: jsstring
  buffer :: bytes

datatype upload_error =
    MulterError string
  | PlainError string

definition fileSize_limit :: nat where
  "fileSize_limit = 5 * 1024 * 1024"

text \<open>The \<open>fileFilter\<close> option: \<open>cb(null, true)\<close> or \<open>cb(new Error(...), false)\<close>.\<close>

definition fileFilter :: "upload \<Rightarrow> upload_error + bool" where
  "fileFilter file =
     (if mimetype file = ascii ''image/jpeg'' then Inr True
      else Inl (PlainError ''Only JPEG files are allowed''))"

text \<open>
  \<open>upload.single('photo')\<close>. The multer library is not part of the repository; its
  documented behaviour is that the file filter is asked first, that a file which the
  filter accepts is read into memory, and that a file longer than \<open>limits.fileSize\<close>
  makes the middleware fail with a \<open>MulterError\<close> of code \<open>LIMIT_FILE_SIZE\<close>. The
  result is the error passed to \<open>next\<close>, or \<open>req.file\<close>.
\<close>

definition upload_single :: "upload option \<Rightarrow> upload_error + upload option" where
  "upload_single part =
     (case part of
        None \<Rightarrow> Inr None
      | Some file \<Rightarrow>
          (case fileFilter file of
             Inl err \<Rightarrow> Inl err
           | Inr accepted \<Rightarrow>
               if \<not> accepted then Inr None
               else if fileSize_limit < length (buffer file) then Inl (MulterError ''File too large'')
               else Inr (Some file)))"

text \<open>
  The error-handling middleware of the source: status 400 for a \<open>MulterError\<close>, status
  500 for any other error, with the message as JSON. The source registers it with
  \<open>app.use\<close> ahead of the routes. Express passes an error on to the error handlers that
  are registered after the layer that failed, so this middleware never sees an error of
  \<open>upload.single\<close>, which runs inside the routes.
\<close>

definition error_middleware :: "upload_error \<Rightarrow> response" where
  "error_middleware err =
     (case err of
        MulterError msg \<Rightarrow> error_response 400 msg
      | PlainError msg \<Rightarrow> error_response 500 msg)"

text \<open>
  The handler of last resort of Express, which is not part of the repository: it answers
  with \<open>err.status\<close> or \<open>err.statusCode\<close> when the error carries one, and with 500
  otherwise, and sends an HTML page. Neither the error of the file filter nor a
  \<open>MulterError\<close> carries a status.
\<close>

definition default_error_handler :: "upload_error \<Rightarrow> response" where
  "default_error_handler err =
     (case err of
        MulterError msg \<Rightarrow> \<lparr>status = 500, body = HtmlErrorPage\<rparr>
      | PlainError msg \<Rightarrow> \<lparr>status = 500, body = HtmlErrorPage\<rparr>)"

section \<open>GET /api/todos\<close>

definition get_todos :: "state \<Rightarrow> response \<times> state" where
  "get_todos s = (\<lparr>status = 200, body = TodosJson (todos s)\<rparr>, s)"

section \<open>POST /api/todos\<close>

text \<open>\<open>todos.push(newTodo)\<close> followed by \<open>res.status(201).json(newTodo)\<close>.\<close>

definition push_created :: "todo \<Rightarrow> state \<Rightarrow> response \<times> state" where
  "push_created newTodo s = (\<lparr>status = 201, body = TodoJson newTodo\<rparr>, s\<lparr>todos := todos s @ [newTodo]\<rparr>)"

text \<open>
  The form field \<open>text\<close> is absent (\<open>None\<close>) or a string; \<open>req.file\<close> is what the upload
  middleware left.
\<close>

definition post_todos :: "jsstring option \<Rightarrow> upload option \<Rightarrow> env \<Rightarrow> state \<Rightarrow> response \<times> state" where
  "post_todos text_v file e s =
     (case text_v of
        None \<Rightarrow> (error_response 400 ''Todo text is required'', s)
      | Some txt \<Rightarrow>
          if txt = [] \<or> trim txt = [] then (error_response 400 ''Todo text is required'', s)
          else
            (let newTodo = \<lparr>todo_id = nextId s, todo_text = trim txt, completed = False,
                            hasPhoto = False, photoFilename = None\<rparr>;
                 s1 = s\<lparr>nextId := nextId s + 1\<rparr>
             in case file of
                  None \<Rightarrow> push_created newTodo s1
                | Some f \<Rightarrow>
                    if bucket s1 \<noteq> None then
                      (case uploadPhotoToGCS e (buffer f) (todo_id newTodo) (bucket s1) of
                         Inr (filename, b') \<Rightarrow>
                           push_created (newTodo\<lparr>hasPhoto := True, photoFilename := Some filename\<rparr>)
                             (s1\<lparr>bucket := Some b'\<rparr>)
                       | Inl err \<Rightarrow> push_created newTodo s1)
                    else push_created newTodo s1))"

section \<open>DELETE /api/todos/:id\<close>

text \<open>\<open>todos.splice(todoIndex, 1)\<close>.\<close>

definition splice1 :: "nat \<Rightarrow> 'a list \<Rightarrow> 'a list" where
  "splice1 k xs = take k xs @ drop (Suc k) xs"

text \<open>
  The handler is an \<open>async\<close> function that awaits the deletion in the bucket, and only
  when the todo has a photo and a bucket is configured. Up to the \<open>await\<close> it runs without
  interruption: it answers 404, or it reads \<open>todoIndex\<close> and, with nothing to await,
  splices and answers 204 at once, or it starts the deletion and is suspended, holding
  \<open>todoIndex\<close> and the file name.
\<close>

definition splice_and_respond :: "nat \<Rightarrow> state \<Rightarrow> response \<times> state" where
  "splice_and_respond todoIndex s =
     (\<lparr>status = 204, body = NoBody\<rparr>, s\<lparr>todos := splice1 todoIndex (todos s)\<rparr>)"

definition delete_todo_start :: "int option \<Rightarrow> state \<Rightarrow> (response \<times> state) + (nat \<times> jsstring)" where
  "delete_todo_start rid s =
     (case findIndex (matches rid) (todos s) of
        None \<Rightarrow> Inl (error_response 404 ''Todo not found'', s)
      | Some todoIndex \<Rightarrow>
          (let todo = todos s ! todoIndex
           in case (photoFilename todo, bucket s) of
                (Some name, Some b) \<Rightarrow>
                  if hasPhoto todo \<and> name \<noteq> [] then Inr (todoIndex, name)
                  else Inl (splice_and_respond todoIndex s)
              | _ \<Rightarrow> Inl (splice_and_respond todoIndex s)))"

text \<open>
  The handler after the \<open>await\<close>, in the state that it finds then: the deletion has
  removed the object or has failed, which the \<open>catch\<close> only logs, and
  \<open>todos.splice(todoIndex, 1)\<close> is applied to the collection as it is now, with the
  index that was read before the \<open>await\<close>.
\<close>

definition delete_todo_resume :: "nat \<times> jsstring \<Rightarrow> env \<Rightarrow> state \<Rightarrow> response \<times> state" where
  "delete_todo_resume pending e s =
     (let s1 = (case bucket s of
                  None \<Rightarrow> s
                | Some b \<Rightarrow>
                    (case file_delete e (snd pending) b of
                       Inr b' \<Rightarrow> s\<lparr>bucket := Some b'\<rparr>
                     | Inl err \<Rightarrow> s))
      in splice_and_respond (fst pending) s1)"

text \<open>
  The whole handler, with the effect \<open>others\<close> on the state of the requests that are
  handled while it is suspended.
\<close>

definition delete_todo_during ::
  "(state \<Rightarrow> state) \<Rightarrow> int option \<Rightarrow> env \<Rightarrow> state \<Rightarrow> response \<times> state" where
  "delete_todo_during others rid e s =
     (case delete_todo_start rid s of
        Inl answered \<Rightarrow> answered
      | Inr pending \<Rightarrow> delete_todo_resume pending e (others s))"

text \<open>The handler when no other request is handled while it is suspended.\<close>

definition delete_todo :: "int option \<Rightarrow> env \<Rightarrow> state \<Rightarrow> response \<times> state" where
  "delete_todo rid e s = delete_todo_during (\<lambda>s'. s') rid e s"

section \<open>GET /api/todos/:id/photo\<close>

definition get_photo :: "int option \<Rightarrow> env \<Rightarrow> state \<Rightarrow> response \<times> state" where
  "get_photo rid e s =
     (case findIndex (matches rid) (todos s) of
        None \<Rightarrow> (error_response 404 ''Todo not found'', s)
      | Some k \<Rightarrow>
          (let todo = todos s ! k
           in if \<not> hasPhoto todo \<or> \<not> truthy (photoFilename todo)
              then (error_response 404 ''No photo attached to this todo'', s)
              else
                (case getSignedUrl e (photoFilename todo) (bucket s) of
                   Inl err \<Rightarrow> (error_response 500 ''Failed to retrieve photo'', s)
                 | Inr signedUrl \<Rightarrow>
                     if \<not> truthy signedUrl then (error_response 500 ''Failed to generate photo URL'', s)
                     else (case signedUrl of
                             Some url \<Rightarrow> (\<lparr>status = 200, body = PhotoUrlJson url\<rparr>, s)
                           | None \<Rightarrow> (error_response 500 ''Failed to generate photo URL'', s)))))"

section \<open>POST /api/todos/:id/photo\<close>

text \<open>
  The inner \<open>try\<close> block, which deletes the photo that the todo has from the bucket,
  with its \<open>catch\<close> that only logs: the bucket without the object when the todo has a
  photo and the deletion resolves, the bucket as it was otherwise.
\<close>

definition delete_existing_photo :: "env \<Rightarrow> todo \<Rightarrow> gcs_bucket \<Rightarrow> gcs_bucket" where
  "delete_existing_photo e todo b =
     (case photoFilename todo of
        None \<Rightarrow> b
      | Some name \<Rightarrow>
          if hasPhoto todo \<and> name \<noteq> [] then
            (case file_delete e name b of
               Inr b' \<Rightarrow> b'
             | Inl err \<Rightarrow> b)
          else b)"

text \<open>
  The inner \<open>try\<close> deletes the photo that the todo has and ignores a rejection; the outer
  \<open>try\<close> uploads the new photo and writes the two fields of the todo only after the
  upload has returned. The handler is past its first check only when
  \<open>id\<close> is a number, so the last case stands for a missing bucket.
\<close>

definition post_photo :: "int option \<Rightarrow> upload option \<Rightarrow> env \<Rightarrow> state \<Rightarrow> response \<times> state" where
  "post_photo rid file e s =
     (case findIndex (matches rid) (todos s) of
        None \<Rightarrow> (error_response 404 ''Todo not found'', s)
      | Some k \<Rightarrow>
          (case file of
             None \<Rightarrow> (error_response 400 ''No photo uploaded'', s)
           | Some f \<Rightarrow>
               (case (rid, bucket s) of
                  (Some ident, Some b) \<Rightarrow>
                    (let todo = todos s ! k;
                         b1 = delete_existing_photo e todo b
                     in case uploadPhotoToGCS e (buffer f) ident (Some b1) of
                          Inr (filename, b2) \<Rightarrow>
                            (let todo' = todo\<lparr>hasPhoto := True, photoFilename := Some filename\<rparr>
                             in (\<lparr>status = 200, body = TodoJson todo'\<rparr>,
                                 s\<lparr>todos := (todos s)[k := todo'], bucket := Some b2\<rparr>))
                        | Inl err \<Rightarrow>
                            (error_response 500 ''Failed to upload photo'', s\<lparr>bucket := Some b1\<rparr>))
                | _ \<Rightarrow> (error_response 500 ''Photo storage not configured'', s))))"

section \<open>DELETE /api/todos/:id/photo\<close>

text \<open>
  The deletion in the bucket happens inside the \<open>try\<close>, before the two fields are
  cleared: when it rejects, control passes to the \<open>catch\<close> and the fields keep their
  values.
\<close>

definition delete_photo :: "int option \<Rightarrow> env \<Rightarrow> state \<Rightarrow> response \<times> state" where
  "delete_photo rid e s =
     (case findIndex (matches rid) (todos s) of
        None \<Rightarrow> (error_response 404 ''Todo not found'', s)
      | Some k \<Rightarrow>
          (let todo = todos s ! k
           in case photoFilename todo of
                None \<Rightarrow> (error_response 404 ''No photo attached to this todo'', s)
              | Some name \<Rightarrow>
                  if \<not> hasPhoto todo \<or> name = []
                  then (error_response 404 ''No photo attached to this todo'', s)
                  else
                    (let todo' = todo\<lparr>hasPhoto := False, photoFilename := None\<rparr>
                     in case bucket s of
                          None \<Rightarrow>
                            (\<lparr>status = 200, body = TodoJson todo'\<rparr>, s\<lparr>todos := (todos s)[k := todo']\<rparr>)
                        | Some b \<Rightarrow>
                            (case file_delete e name b of
                               Inl err \<Rightarrow> (error_response 500 ''Failed to delete photo'', s)
                             | Inr b' \<Rightarrow>
                                 (\<lparr>status = 200, body = TodoJson todo'\<rparr>,
                                  s\<lparr>todos := (todos s)[k := todo'], bucket := Some b'\<rparr>)))))"

section \<open>Requests and their dispatch\<close>

datatype request =
    GetTodos
  | PostTodos "jsstring option" "upload option"
  | PutTodo "int option" jsvalue
  | DeleteTodo "int option"
  | GetPhoto "int option"
  | PostPhoto "int option" "upload option"
  | DeletePhoto "int option"

text \<open>
  The two routes with \<open>upload.single('photo')\<close> run the upload middleware first; an error
  of the middleware is answered by the handler of last resort and the route handler does
  not run. Every request is handled to its end before the next one; a deletion that is
  interrupted is \<open>delete_todo_during\<close>.
\<close>

definition route :: "request \<Rightarrow> env \<Rightarrow> state \<Rightarrow> response \<times> state" where
  "route rq e s =
     (case rq of
        GetTodos \<Rightarrow> get_todos s
      | PostTodos text_v part \<Rightarrow>
          (case upload_single part of
             Inl err \<Rightarrow> (default_error_handler err, s)
           | Inr file \<Rightarrow> post_todos text_v file e s)
      | PutTodo rid completed_v \<Rightarrow> put_todo rid completed_v s
      | DeleteTodo rid \<Rightarrow> delete_todo rid e s
      | GetPhoto rid \<Rightarrow> get_photo rid e s
      | PostPhoto rid part \<Rightarrow>
          (case upload_single part of
             Inl err \<Rightarrow> (default_error_handler err, s)
           | Inr file \<Rightarrow> post_photo rid file e s)
      | DeletePhoto rid \<Rightarrow> delete_photo rid e s)"

text \<open>The process state after a sequence of requests, each with its environment.\<close>

fun exec :: "(request \<times> env) list \<Rightarrow> state \<Rightarrow> state" where
  "exec [] s = s"
| "exec (re # rest) s = exec rest (snd (route (fst re) (snd re) s))"

text \<open>The identifiers of the todos that the responses with status 201 carried, in order.\<close>

definition created_id :: "response \<Rightarrow> int list" where
  "created_id r =
     (if status r = 201 then (case body r of TodoJson t \<Rightarrow> [todo_id t] | _ \<Rightarrow> []) else [])"

fun created_ids :: "(request \<times> env) list \<Rightarrow> state \<Rightarrow> int list" where
  "created_ids [] s = []"
| "created_ids (re # rest) s =
     created_id (fst (route (fst re) (snd re) s))
       @ created_ids rest (snd (route (fst re) (snd re) s))"

text \<open>
  The invariant of the identifiers: every todo of the collection has an identifier below
  \<open>nextId\<close>, and no two todos share one.
\<close>

definition id_inv :: "state \<Rightarrow> bool" where
  "id_inv s \<longleftrightarrow> list_all (\<lambda>t. todo_id t < nextId s) (todos s) \<and> distinct (map todo_id (todos s))"

section \<open>Example inputs\<close>

text \<open>An environment in which every outside call succeeds.\<close>

definition env_ok :: env where
  "env_ok = \<lparr>now = 1700000000000, sharp = (\<lambda>buf. Some buf), save_ok = True, delete_ok = True,
             signed_url = (\<lambda>name. Some (ascii ''https://storage.example/'' @ name))\<rparr>"

definition jpeg_upload :: upload where
  "jpeg_upload = \<lparr>mimetype = ascii ''image/jpeg'', buffer = [0xFF, 0xD8, 0xFF, 0xD9]\<rparr>"

definition png_upload :: upload where
  "png_upload = \<lparr>mimetype = ascii ''image/png'', buffer = [0x89, 0x50, 0x4E, 0x47]\<rparr>"

definition example_key :: jsstring where
  "example_key = ascii ''todos/1/1700000000000.jpg''"

text \<open>
  The state after a photo has been attached to the first seed todo, in a process with a
  configured and so far empty bucket.
\<close>

definition linked_state :: state where
  "linked_state =
     \<lparr>todos =
        [\<lparr>todo_id = 1, todo_text = ascii ''Welcome to your todo app!'', completed = False,
           hasPhoto = True, photoFilename = Some example_key\<rparr>,
         \<lparr>todo_id = 2, todo_text = ascii ''Add your first todo'', completed = False,
           hasPhoto = False, photoFilename = None\<rparr>],
      nextId = 3,
      bucket = Some [example_key \<mapsto> \<lparr>content = [0xFF, 0xD8, 0xFF, 0xD9], contentType = ascii ''image/jpeg''\<rparr>]\<rparr>"

text \<open>Environments in which one of the outside calls fails.\<close>

definition env_delete_fails :: env where
  "env_delete_fails = env_ok\<lparr>delete_ok := False\<rparr>"

definition env_save_fails :: env where
  "env_save_fails = env_ok\<lparr>save_ok := False\<rparr>"

definition env_sharp_fails :: env where
  "env_sharp_fails = env_ok\<lparr>sharp := (\<lambda>buf. None)\<rparr>"

section \<open>The storage key of the specification\<close>

text \<open>
  The format that the specification gives for a storage key, in its own words:
  \<open>todos/<todoId>/<epochMillis>.jpg\<close>, with both numbers in decimal. The function
  \<open>uploadPhotoToGCS\<close> above builds its file name by itself; the two are compared below.
\<close>

definition spec_storageKey :: "int \<Rightarrow> nat \<Rightarrow> jsstring" where
  "spec_storageKey todoId epochMillis =
     ascii ''todos/'' @ numberToString todoId @ ascii ''/'' @ decimal epochMillis @ ascii ''.jpg''"

text \<open>
  The state after a third todo has been created and a photo has been attached to the
  second seed todo, and the two requests that lead there.
\<close>

definition second_key :: jsstring where
  "second_key = ascii ''todos/2/1700000000000.jpg''"

definition photo_on_second :: state where
  "photo_on_second =
     \<lparr>todos =
        [\<lparr>todo_id = 1, todo_text = ascii ''Welcome to your todo app!'', completed = False,
           hasPhoto = False, photoFilename = None\<rparr>,
         \<lparr>todo_id = 2, todo_text = ascii ''Add your first todo'', completed = False,
           hasPhoto = True, photoFilename = Some second_key\<rparr>,
         \<lparr>todo_id = 3, todo_text = ascii ''Buy milk'', completed = False,
           hasPhoto = False, photoFilename = None\<rparr>],
      nextId = 4,
      bucket = Some [second_key \<mapsto> \<lparr>content = [0xFF, 0xD8, 0xFF, 0xD9], contentType = ascii ''image/jpeg''\<rparr>]\<rparr>"

definition create_then_attach :: "(request \<times> env) list" where
  "create_then_attach =
     [(PostTodos (Some (ascii ''Buy milk'')) None, env_ok),
      (PostPhoto (Some 2) (Some jpeg_upload), env_ok)]"

text \<open>A JPEG file of one byte more than the size limit.\<close>

definition oversize_upload :: upload where
  "oversize_upload = \<lparr>mimetype = ascii ''image/jpeg'', buffer = replicate (Suc fileSize_limit) 0\<rparr>"

text \<open>A todo is created and then deleted.\<close>

definition create_then_delete :: "(request \<times> env) list" where
  "create_then_delete =
     [(PostTodos (Some (ascii ''Buy milk'')) None, env_ok), (DeleteTodo (Some 3), env_ok)]"

section \<open>Properties of the lookup\<close>

lemma findIndex_None: "findIndex P xs = None \<longleftrightarrow> (\<forall>x\<in>set xs. \<not> P x)"
  by (induction xs) auto

lemma findIndex_Some_iff:
  "findIndex P xs = Some k \<longleftrightarrow> k < length xs \<and> P (xs ! k) \<and> (\<forall>j<k. \<not> P (xs ! j))"
proof (induction xs arbitrary: k)
  case Nil
  show ?case by simp
next
  case (Cons x xs)
  show ?case
  proof (cases k)
    case 0
    then show ?thesis by auto
  next
    case (Suc k')
    have "(\<forall>j<Suc k'. \<not> P ((x # xs) ! j)) \<longleftrightarrow> \<not> P x \<and> (\<forall>j<k'. \<not> P (xs ! j))"
      by (auto simp: less_Suc_eq_0_disj)
    with Suc Cons.IH [of k'] show ?thesis by auto
  qed
qed

section \<open>Completing a todo\<close>

text \<open>
  C8. PUT /api/todos/:id answers 404 and leaves the state as it was when no todo has the
  identifier of the request (also when the identifier is not a number). When the todo at
  index \<open>k\<close> is the first one with identifier \<open>i\<close>: a boolean \<open>completed\<close> is written to
  that todo and the updated todo is returned with status 200; any other value of
  \<open>completed\<close>, or none, changes nothing and the todo is returned as it is, with status 200.
\<close>

theorem put_todo_setCompleted:
  "((\<forall>t\<in>set (todos s). Some (todo_id t) \<noteq> rid) \<longrightarrow>
      put_todo rid v s = (error_response 404 ''Todo not found'', s)) \<and>
   (k < length (todos s) \<and> todo_id (todos s ! k) = i \<and> (\<forall>j<k. todo_id (todos s ! j) \<noteq> i) \<longrightarrow>
      put_todo (Some i) (JBool b) s =
        (\<lparr>status = 200, body = TodoJson ((todos s ! k)\<lparr>completed := b\<rparr>)\<rparr>,
         s\<lparr>todos := (todos s)[k := (todos s ! k)\<lparr>completed := b\<rparr>]\<rparr>) \<and>
      ((\<forall>c. v \<noteq> JBool c) \<longrightarrow>
         put_todo (Some i) v s = (\<lparr>status = 200, body = TodoJson (todos s ! k)\<rparr>, s)))"
proof (intro conjI impI)
  assume "\<forall>t\<in>set (todos s). Some (todo_id t) \<noteq> rid"
  then have "findIndex (matches rid) (todos s) = None"
    by (auto simp: findIndex_None matches_def)
  then show "put_todo rid v s = (error_response 404 ''Todo not found'', s)"
    by (simp add: put_todo_def)
next
  assume h: "k < length (todos s) \<and> todo_id (todos s ! k) = i \<and> (\<forall>j<k. todo_id (todos s ! j) \<noteq> i)"
  then have "findIndex (matches (Some i)) (todos s) = Some k"
    by (auto simp: findIndex_Some_iff matches_def)
  with h show "put_todo (Some i) (JBool b) s =
           (\<lparr>status = 200, body = TodoJson ((todos s ! k)\<lparr>completed := b\<rparr>)\<rparr>,
            s\<lparr>todos := (todos s)[k := (todos s ! k)\<lparr>completed := b\<rparr>]\<rparr>)"
    by (simp add: put_todo_def)
next
  assume h: "k < length (todos s) \<and> todo_id (todos s ! k) = i \<and> (\<forall>j<k. todo_id (todos s ! j) \<noteq> i)"
    and v: "\<forall>c. v \<noteq> JBool c"
  from h have fi: "findIndex (matches (Some i)) (todos s) = Some k"
    by (auto simp: findIndex_Some_iff matches_def)
  show "put_todo (Some i) v s = (\<lparr>status = 200, body = TodoJson (todos s ! k)\<rparr>, s)"
  proof (cases v)
    case (JBool c)
    with v show ?thesis by blast
  qed (use fi in \<open>simp_all add: put_todo_def\<close>)
qed

theorem put_todo_setCompleted_witness:
  "put_todo (Some 2) (JBool True) (initial_state None) =
     (\<lparr>status = 200, body = TodoJson ((seed_todos ! 1)\<lparr>completed := True\<rparr>)\<rparr>,
      (initial_state None)\<lparr>todos := seed_todos[1 := (seed_todos ! 1)\<lparr>completed := True\<rparr>]\<rparr>) \<and>
   put_todo (Some 2) JNull (initial_state None) =
     (\<lparr>status = 200, body = TodoJson (seed_todos ! 1)\<rparr>, initial_state None) \<and>
   put_todo (Some 7) (JBool True) (initial_state None) =
     (error_response 404 ''Todo not found'', initial_state None)"
  using put_todo_setCompleted [where s = "initial_state None" and rid = "Some 7" and v = "JBool True"
      and k = 1 and i = 2 and b = True]
    put_todo_setCompleted [where s = "initial_state None" and rid = "Some 7" and v = JNull
      and k = 1 and i = 2 and b = True]
  by (simp add: initial_state_def seed_todos_def)

lemma first_with_id:
  "k < length xs \<and> todo_id (xs ! k) = i \<and> (\<forall>j<k. todo_id (xs ! j) \<noteq> i)
     \<Longrightarrow> findIndex (matches (Some i)) xs = Some k"
  by (auto simp: findIndex_Some_iff matches_def)

lemma no_todo_with_id:
  "\<forall>t\<in>set xs. Some (todo_id t) \<noteq> rid \<Longrightarrow> findIndex (matches rid) xs = None"
  by (auto simp: findIndex_None matches_def)

section \<open>The example inputs\<close>

lemma decimal_example: "decimal 1700000000000 = ascii ''1700000000000''"
  by (simp add: decimal.simps ascii_def)

lemma example_key_nonempty: "example_key \<noteq> []"
  by (simp add: example_key_def ascii_def)

lemma linked_state_reachable:
  "snd (post_photo (Some 1) (Some jpeg_upload) env_ok (initial_state (Some Map.empty))) = linked_state"
  by (simp add: post_photo_def initial_state_def seed_todos_def uploadPhotoToGCS_def delete_existing_photo_def
      file_save_def env_ok_def jpeg_upload_def linked_state_def example_key_def
      numberToString_def decimal.simps Let_def ascii_def matches_def)

lemma png_rejected: "upload_single (Some png_upload) = Inl (PlainError ''Only JPEG files are allowed'')"
  by (simp add: upload_single_def fileFilter_def png_upload_def ascii_def)

lemma jpeg_accepted: "upload_single (Some jpeg_upload) = Inr (Some jpeg_upload)"
  by (simp add: upload_single_def fileFilter_def jpeg_upload_def ascii_def fileSize_limit_def)

section \<open>What an update leaves alone\<close>

text \<open>
  C10. When the todo at index \<open>k\<close> is the first one with the identifier of a PUT request,
  the request leaves the length of the collection, the fields \<open>id\<close>, \<open>text\<close>,
  \<open>hasPhoto\<close> and \<open>photoFilename\<close> of that todo, every todo at another index, the
  counter \<open>nextId\<close> and the bucket as they were, whatever the value of \<open>completed\<close> is.
\<close>

theorem put_todo_frame:
  assumes "k < length (todos s) \<and> todo_id (todos s ! k) = i \<and> (\<forall>j<k. todo_id (todos s ! j) \<noteq> i)"
  shows "length (todos (snd (put_todo (Some i) v s))) = length (todos s) \<and>
         todo_id (todos (snd (put_todo (Some i) v s)) ! k) = todo_id (todos s ! k) \<and>
         todo_text (todos (snd (put_todo (Some i) v s)) ! k) = todo_text (todos s ! k) \<and>
         hasPhoto (todos (snd (put_todo (Some i) v s)) ! k) = hasPhoto (todos s ! k) \<and>
         photoFilename (todos (snd (put_todo (Some i) v s)) ! k) = photoFilename (todos s ! k) \<and>
         (\<forall>j<length (todos s). j \<noteq> k \<longrightarrow> todos (snd (put_todo (Some i) v s)) ! j = todos s ! j) \<and>
         nextId (snd (put_todo (Some i) v s)) = nextId s \<and>
         bucket (snd (put_todo (Some i) v s)) = bucket s"
proof -
  from assms have fi: "findIndex (matches (Some i)) (todos s) = Some k"
    by (rule first_with_id)
  from assms have k: "k < length (todos s)" by simp
  show ?thesis
  proof (cases v)
    case (JBool b)
    with fi k show ?thesis by (simp add: put_todo_def)
  qed (use fi in \<open>simp_all add: put_todo_def\<close>)
qed

theorem put_todo_frame_witness:
  "todos (snd (put_todo (Some 1) (JBool True) linked_state)) =
     (todos linked_state)[0 := (todos linked_state ! 0)\<lparr>completed := True\<rparr>] \<and>
   photoFilename (todos (snd (put_todo (Some 1) (JBool True) linked_state)) ! 0) = Some example_key \<and>
   todos (snd (put_todo (Some 1) (JBool True) linked_state)) ! 1 = todos linked_state ! 1"
  using put_todo_frame [where s = linked_state and k = 0 and i = 1 and v = "JBool True"]
  by (simp add: linked_state_def put_todo_def matches_def)

section \<open>Deleting a todo\<close>

text \<open>
  When no other request is handled while the handler is suspended,
  DELETE /api/todos/:id answers 404 and leaves the state as it was for an identifier that
  no todo has, and otherwise answers 204 and removes the first todo with the identifier,
  in every environment: also in one where the deletion of the photo in the bucket fails.
  A todo without a photo, or a process without a bucket, gives the handler nothing to
  await.
\<close>

lemma delete_todo_start_unknown:
  "findIndex (matches rid) (todos s) = None \<Longrightarrow>
     delete_todo_start rid s = Inl (error_response 404 ''Todo not found'', s)"
  by (simp add: delete_todo_start_def)

lemma delete_todo_found:
  assumes "findIndex (matches rid) (todos s) = Some k"
  shows "fst (delete_todo rid e s) = \<lparr>status = 204, body = NoBody\<rparr> \<and>
         todos (snd (delete_todo rid e s)) = splice1 k (todos s) \<and>
         nextId (snd (delete_todo rid e s)) = nextId s"
  using assms
  by (simp add: delete_todo_def delete_todo_during_def delete_todo_start_def
      delete_todo_resume_def splice_and_respond_def Let_def
      split: option.splits sum.splits)

lemma delete_todo_uninterrupted:
  "((\<forall>t\<in>set (todos s). Some (todo_id t) \<noteq> rid) \<longrightarrow>
      delete_todo rid e s = (error_response 404 ''Todo not found'', s)) \<and>
   (k < length (todos s) \<and> todo_id (todos s ! k) = i \<and> (\<forall>j<k. todo_id (todos s ! j) \<noteq> i) \<longrightarrow>
      fst (delete_todo (Some i) e s) = \<lparr>status = 204, body = NoBody\<rparr> \<and>
      todos (snd (delete_todo (Some i) e s)) = take k (todos s) @ drop (Suc k) (todos s) \<and>
      nextId (snd (delete_todo (Some i) e s)) = nextId s \<and>
      (distinct (map todo_id (todos s)) \<longrightarrow>
         i \<notin> todo_id ` set (todos (snd (delete_todo (Some i) e s)))))"
proof (intro conjI impI)
  assume "\<forall>t\<in>set (todos s). Some (todo_id t) \<noteq> rid"
  then show "delete_todo rid e s = (error_response 404 ''Todo not found'', s)"
    by (simp add: delete_todo_def delete_todo_during_def delete_todo_start_unknown no_todo_with_id)
next
  assume h: "k < length (todos s) \<and> todo_id (todos s ! k) = i \<and> (\<forall>j<k. todo_id (todos s ! j) \<noteq> i)"
  then have fi: "findIndex (matches (Some i)) (todos s) = Some k"
    by (rule first_with_id)
  note found = delete_todo_found [OF fi, of e]
  from found show "fst (delete_todo (Some i) e s) = \<lparr>status = 204, body = NoBody\<rparr>"
    by simp
  from found show td: "todos (snd (delete_todo (Some i) e s)) = take k (todos s) @ drop (Suc k) (todos s)"
    by (simp add: splice1_def)
  from found show "nextId (snd (delete_todo (Some i) e s)) = nextId s"
    by simp
  assume d: "distinct (map todo_id (todos s))"
  let ?ids = "map todo_id (todos s)"
  from h have k: "k < length ?ids" and ik: "?ids ! k = i" by simp_all
  have "?ids = take k ?ids @ i # drop (Suc k) ?ids"
    using k ik by (metis id_take_nth_drop)
  with d have "distinct (take k ?ids @ i # drop (Suc k) ?ids)" by simp
  then have "i \<notin> set (take k ?ids) \<union> set (drop (Suc k) ?ids)" by auto
  then have "i \<notin> set (map todo_id (take k (todos s) @ drop (Suc k) (todos s)))"
    by (simp add: take_map drop_map)
  with td show "i \<notin> todo_id ` set (todos (snd (delete_todo (Some i) e s)))"
    by auto
qed

lemma delete_todo_no_await:
  assumes "findIndex (matches rid) (todos s) = Some k"
    and "\<not> hasPhoto (todos s ! k) \<or> \<not> truthy (photoFilename (todos s ! k)) \<or> bucket s = None"
  shows "delete_todo_during others rid e s = splice_and_respond k s"
  using assms
  by (auto simp: delete_todo_during_def delete_todo_start_def truthy_def Let_def
      split: option.splits)

lemma second_key_nonempty: "second_key \<noteq> []"
  by (simp add: second_key_def ascii_def)

lemma photo_on_second_reachable:
  "exec create_then_attach (initial_state (Some Map.empty)) = photo_on_second"
  by (simp add: create_then_attach_def route_def upload_single_def fileFilter_def
      fileSize_limit_def post_todos_def push_created_def post_photo_def
      delete_existing_photo_def uploadPhotoToGCS_def file_save_def matches_def
      initial_state_def seed_todos_def photo_on_second_def second_key_def
      env_ok_def jpeg_upload_def numberToString_def decimal.simps
      trim_def isWhiteSpace_def ascii_def Let_def)

lemma delete_first_no_await:
  "delete_todo_start (Some 1) photo_on_second =
     Inl (\<lparr>status = 204, body = NoBody\<rparr>,
          photo_on_second\<lparr>todos := [todos photo_on_second ! 1, todos photo_on_second ! 2]\<rparr>)"
  by (simp add: delete_todo_start_def splice_and_respond_def splice1_def matches_def
      photo_on_second_def)

lemma delete_second_awaits:
  "delete_todo_start (Some 2) photo_on_second = Inr (1, second_key)"
  using second_key_nonempty
  by (simp add: delete_todo_start_def matches_def photo_on_second_def)

text \<open>
  C7. The collection holds the todos 1, 2 and 3, and todo 2 has a photo. DELETE for todo 2
  reads the index 1 and awaits the deletion of the photo; meanwhile DELETE for todo 1,
  which has nothing to await, is handled to its end. The first handler then splices at
  index 1 of the collection as it is now: it answers 204, todo 3 is gone and todo 2,
  which the request named, is still there.
\<close>

theorem delete_todo_stale_index:
  "fst (delete_todo_during (\<lambda>s. snd (delete_todo (Some 1) env_ok s)) (Some 2) env_ok photo_on_second) =
     \<lparr>status = 204, body = NoBody\<rparr> \<and>
   map todo_id (todos photo_on_second) = [1, 2, 3] \<and>
   map todo_id
     (todos (snd (delete_todo_during (\<lambda>s. snd (delete_todo (Some 1) env_ok s)) (Some 2) env_ok
                    photo_on_second))) = [2]"
proof -
  have run: "delete_todo_during (\<lambda>s. snd (delete_todo (Some 1) env_ok s)) (Some 2) env_ok photo_on_second =
      delete_todo_resume (1, second_key) env_ok
        (photo_on_second\<lparr>todos := [todos photo_on_second ! 1, todos photo_on_second ! 2]\<rparr>)"
    by (simp add: delete_todo_during_def delete_second_awaits delete_todo_def delete_first_no_await)
  show ?thesis
    unfolding run
    by (simp add: delete_todo_resume_def splice_and_respond_def splice1_def file_delete_def
        env_ok_def photo_on_second_def)
qed

section \<open>Creating a todo\<close>

lemma trim_empty_iff: "trim t = [] \<longleftrightarrow> (\<forall>c\<in>set t. isWhiteSpace c)"
proof
  assume "trim t = []"
  then have "\<forall>c\<in>set (dropWhile isWhiteSpace t). isWhiteSpace c"
    by (simp add: trim_def dropWhile_eq_Nil_conv)
  then have "dropWhile isWhiteSpace t = []"
    using hd_dropWhile [of isWhiteSpace t] by (cases "dropWhile isWhiteSpace t") auto
  then show "\<forall>c\<in>set t. isWhiteSpace c"
    by (simp add: dropWhile_eq_Nil_conv)
next
  assume "\<forall>c\<in>set t. isWhiteSpace c"
  then show "trim t = []" by (auto simp: trim_def dest: set_dropWhileD)
qed

lemma trim_example: "trim (ascii ''  Buy milk '') = ascii ''Buy milk''"
  by (simp add: trim_def ascii_def isWhiteSpace_def)

text \<open>
  C6. POST /api/todos answers 400 and leaves the state as it was (no todo is added and
  \<open>nextId\<close> keeps its value) when the field \<open>text\<close> is absent or consists of white space
  only, the empty string included. For a text with a code unit that is not white space
  the answer is 201 with a new todo that has the identifier \<open>nextId\<close>, the trimmed text
  and \<open>completed = false\<close>; the todo is appended to the collection and \<open>nextId\<close> advances
  by one.
\<close>

theorem post_todos_text:
  "((text_v = None \<or> (\<exists>t. text_v = Some t \<and> (\<forall>c\<in>set t. isWhiteSpace c))) \<longrightarrow>
      post_todos text_v req_file e s = (error_response 400 ''Todo text is required'', s)) \<and>
   ((\<exists>c\<in>set t. \<not> isWhiteSpace c) \<longrightarrow>
      (\<exists>newTodo.
         fst (post_todos (Some t) req_file e s) = \<lparr>status = 201, body = TodoJson newTodo\<rparr> \<and>
         todo_id newTodo = nextId s \<and> todo_text newTodo = trim t \<and> completed newTodo = False \<and>
         todos (snd (post_todos (Some t) req_file e s)) = todos s @ [newTodo] \<and>
         nextId (snd (post_todos (Some t) req_file e s)) = nextId s + 1))"
proof (intro conjI impI)
  assume "text_v = None \<or> (\<exists>t. text_v = Some t \<and> (\<forall>c\<in>set t. isWhiteSpace c))"
  then show "post_todos text_v req_file e s = (error_response 400 ''Todo text is required'', s)"
    by (auto simp: post_todos_def trim_empty_iff)
next
  assume "\<exists>c\<in>set t. \<not> isWhiteSpace c"
  then have t: "trim t \<noteq> []" "t \<noteq> []"
    by (auto simp: trim_empty_iff)
  then show "\<exists>newTodo.
         fst (post_todos (Some t) req_file e s) = \<lparr>status = 201, body = TodoJson newTodo\<rparr> \<and>
         todo_id newTodo = nextId s \<and> todo_text newTodo = trim t \<and> completed newTodo = False \<and>
         todos (snd (post_todos (Some t) req_file e s)) = todos s @ [newTodo] \<and>
         nextId (snd (post_todos (Some t) req_file e s)) = nextId s + 1"
    by (simp add: post_todos_def push_created_def Let_def split: option.splits sum.splits prod.splits)
qed

theorem post_todos_text_witness:
  "post_todos None None env_ok linked_state = (error_response 400 ''Todo text is required'', linked_state) \<and>
   post_todos (Some (ascii ''   '')) None env_ok linked_state =
     (error_response 400 ''Todo text is required'', linked_state) \<and>
   post_todos (Some (ascii ''  Buy milk '')) None env_ok linked_state =
     (\<lparr>status = 201,
       body = TodoJson \<lparr>todo_id = 3, todo_text = ascii ''Buy milk'', completed = False,
                        hasPhoto = False, photoFilename = None\<rparr>\<rparr>,
      linked_state\<lparr>todos := todos linked_state @
                     [\<lparr>todo_id = 3, todo_text = ascii ''Buy milk'', completed = False,
                       hasPhoto = False, photoFilename = None\<rparr>],
                   nextId := 4\<rparr>)"
  using post_todos_text [where text_v = None and req_file = None and e = env_ok and s = linked_state
      and t = "ascii ''  Buy milk ''"]
    post_todos_text [where text_v = "Some (ascii ''   '')" and req_file = None and e = env_ok
      and s = linked_state and t = "ascii ''  Buy milk ''"]
    trim_example
  by (simp add: post_todos_def push_created_def linked_state_def ascii_def isWhiteSpace_def trim_def Let_def)

section \<open>Attaching a photo\<close>

lemma uploadPhotoToGCS_Inr:
  "uploadPhotoToGCS e buf todoId bkt = Inr (filename, b') \<longleftrightarrow>
     (\<exists>b optimized. bkt = Some b \<and> sharp e buf = Some optimized \<and> save_ok e \<and>
        filename = spec_storageKey todoId (now e) \<and>
        b' = b(filename \<mapsto> \<lparr>content = optimized, contentType = ascii ''image/jpeg''\<rparr>))"
  by (auto simp: uploadPhotoToGCS_def file_save_def spec_storageKey_def Let_def
      split: option.splits)

lemma uploadPhotoToGCS_fails:
  "bkt = None \<or> sharp e buf = None \<or> \<not> save_ok e \<Longrightarrow> \<exists>err. uploadPhotoToGCS e buf todoId bkt = Inl err"
  by (auto simp: uploadPhotoToGCS_def file_save_def Let_def split: option.splits)

lemma post_photo_found:
  assumes "findIndex (matches (Some i)) (todos s) = Some k" and "bucket s = Some b"
  shows "post_photo (Some i) (Some f) e s =
           (case uploadPhotoToGCS e (buffer f) i (Some (delete_existing_photo e (todos s ! k) b)) of
              Inr res \<Rightarrow>
                (\<lparr>status = 200,
                  body = TodoJson ((todos s ! k)\<lparr>hasPhoto := True, photoFilename := Some (fst res)\<rparr>)\<rparr>,
                 s\<lparr>todos := (todos s)[k := (todos s ! k)\<lparr>hasPhoto := True, photoFilename := Some (fst res)\<rparr>],
                   bucket := Some (snd res)\<rparr>)
            | Inl err \<Rightarrow>
                (error_response 500 ''Failed to upload photo'',
                 s\<lparr>bucket := Some (delete_existing_photo e (todos s ! k) b)\<rparr>))"
  using assms by (simp add: post_photo_def Let_def split: sum.splits prod.splits)

lemma post_photo_unconfigured:
  assumes "findIndex (matches (Some i)) (todos s) = Some k" and "bucket s = None"
  shows "post_photo (Some i) (Some f) e s = (error_response 500 ''Photo storage not configured'', s)"
  using assms by (simp add: post_photo_def)

text \<open>
  C3. Take a request with a photo in an environment where the bucket is not configured,
  or sharp rejects the buffer, or the save in the bucket fails. POST /api/todos with a
  text that is not blank still answers 201 with the new todo, which has
  \<open>hasPhoto = false\<close> and no file name, and appends it. POST /api/todos/:id/photo for a
  todo of the collection answers 500 with an error message and leaves the collection as
  it was.
\<close>

theorem photo_failure_asymmetry:
  assumes "bucket s = None \<or> sharp e (buffer f) = None \<or> \<not> save_ok e"
  shows "((\<exists>c\<in>set t. \<not> isWhiteSpace c) \<longrightarrow>
           post_todos (Some t) (Some f) e s =
             (\<lparr>status = 201,
               body = TodoJson \<lparr>todo_id = nextId s, todo_text = trim t, completed = False,
                                hasPhoto = False, photoFilename = None\<rparr>\<rparr>,
              s\<lparr>todos := todos s @ [\<lparr>todo_id = nextId s, todo_text = trim t, completed = False,
                                      hasPhoto = False, photoFilename = None\<rparr>],
                nextId := nextId s + 1\<rparr>)) \<and>
         (k < length (todos s) \<and> todo_id (todos s ! k) = i \<and> (\<forall>j<k. todo_id (todos s ! j) \<noteq> i) \<longrightarrow>
           status (fst (post_photo (Some i) (Some f) e s)) = 500 \<and>
           (\<exists>msg. body (fst (post_photo (Some i) (Some f) e s)) = ErrorJson msg) \<and>
           todos (snd (post_photo (Some i) (Some f) e s)) = todos s \<and>
           nextId (snd (post_photo (Some i) (Some f) e s)) = nextId s)"
proof (intro conjI impI)
  assume "\<exists>c\<in>set t. \<not> isWhiteSpace c"
  then have t: "trim t \<noteq> []" "t \<noteq> []"
    by (auto simp: trim_empty_iff)
  from assms obtain err where "uploadPhotoToGCS e (buffer f) (nextId s) (bucket s) = Inl err"
    using uploadPhotoToGCS_fails by blast
  with t show "post_todos (Some t) (Some f) e s =
             (\<lparr>status = 201,
               body = TodoJson \<lparr>todo_id = nextId s, todo_text = trim t, completed = False,
                                hasPhoto = False, photoFilename = None\<rparr>\<rparr>,
              s\<lparr>todos := todos s @ [\<lparr>todo_id = nextId s, todo_text = trim t, completed = False,
                                      hasPhoto = False, photoFilename = None\<rparr>],
                nextId := nextId s + 1\<rparr>)"
    by (simp add: post_todos_def push_created_def Let_def)
next
  assume h: "k < length (todos s) \<and> todo_id (todos s ! k) = i \<and> (\<forall>j<k. todo_id (todos s ! j) \<noteq> i)"
  then have fi: "findIndex (matches (Some i)) (todos s) = Some k"
    by (rule first_with_id)
  have "\<exists>msg. post_photo (Some i) (Some f) e s =
          (error_response 500 msg, s\<lparr>bucket := bucket (snd (post_photo (Some i) (Some f) e s))\<rparr>)"
  proof (cases "bucket s")
    case None
    with fi show ?thesis by (auto simp: post_photo_unconfigured)
  next
    case (Some b)
    with assms obtain err where
      "uploadPhotoToGCS e (buffer f) i (Some (delete_existing_photo e (todos s ! k) b)) = Inl err"
      using uploadPhotoToGCS_fails [of "Some (delete_existing_photo e (todos s ! k) b)" e "buffer f" i]
      by auto
    with fi Some show ?thesis by (auto simp: post_photo_found)
  qed
  then obtain msg where pp: "post_photo (Some i) (Some f) e s =
          (error_response 500 msg, s\<lparr>bucket := bucket (snd (post_photo (Some i) (Some f) e s))\<rparr>)"
    by blast
  show "status (fst (post_photo (Some i) (Some f) e s)) = 500"
    by (subst pp) (simp add: error_response_def)
  show "\<exists>msg. body (fst (post_photo (Some i) (Some f) e s)) = ErrorJson msg"
    by (subst pp) (simp add: error_response_def)
  show "todos (snd (post_photo (Some i) (Some f) e s)) = todos s"
    by (subst pp) simp
  show "nextId (snd (post_photo (Some i) (Some f) e s)) = nextId s"
    by (subst pp) simp
qed

theorem photo_failure_asymmetry_witness:
  "post_todos (Some (ascii ''Buy milk'')) (Some jpeg_upload) env_save_fails linked_state =
     (\<lparr>status = 201,
       body = TodoJson \<lparr>todo_id = 3, todo_text = ascii ''Buy milk'', completed = False,
                        hasPhoto = False, photoFilename = None\<rparr>\<rparr>,
      linked_state\<lparr>todos := todos linked_state @
                     [\<lparr>todo_id = 3, todo_text = ascii ''Buy milk'', completed = False,
                       hasPhoto = False, photoFilename = None\<rparr>],
                   nextId := 4\<rparr>) \<and>
   status (fst (post_photo (Some 2) (Some jpeg_upload) env_save_fails linked_state)) = 500 \<and>
   todos (snd (post_photo (Some 2) (Some jpeg_upload) env_save_fails linked_state)) = todos linked_state \<and>
   status (fst (post_todos (Some (ascii ''Buy milk'')) (Some jpeg_upload) env_sharp_fails linked_state)) = 201 \<and>
   status (fst (post_photo (Some 2) (Some jpeg_upload) env_sharp_fails linked_state)) = 500 \<and>
   status (fst (post_todos (Some (ascii ''Buy milk'')) (Some jpeg_upload) env_ok (initial_state None))) = 201 \<and>
   status (fst (post_photo (Some 2) (Some jpeg_upload) env_ok (initial_state None))) = 500"
  using photo_failure_asymmetry [where s = linked_state and e = env_save_fails and f = jpeg_upload
      and t = "ascii ''Buy milk''" and k = 1 and i = 2]
    photo_failure_asymmetry [where s = linked_state and e = env_sharp_fails and f = jpeg_upload
      and t = "ascii ''Buy milk''" and k = 1 and i = 2]
    photo_failure_asymmetry [where s = "initial_state None" and e = env_ok and f = jpeg_upload
      and t = "ascii ''Buy milk''" and k = 1 and i = 2]
  by (simp add: linked_state_def initial_state_def seed_todos_def env_save_fails_def
      env_sharp_fails_def env_ok_def ascii_def isWhiteSpace_def trim_def)

section \<open>The storage key\<close>

text \<open>The digits of a number are code units from \<open>0\<close> (48) to \<open>9\<close> (57), at least one.\<close>

lemma decimal_nonempty: "decimal n \<noteq> []"
  by (subst decimal.simps) simp

lemma digit_code_unit:
  "d < 10 \<Longrightarrow> (48 :: 16 word) \<le> word_of_nat (48 + d) \<and> (word_of_nat (48 + d) :: 16 word) \<le> 57"
proof -
  assume "d < 10"
  then have "d = 0 \<or> d = 1 \<or> d = 2 \<or> d = 3 \<or> d = 4 \<or> d = 5 \<or> d = 6 \<or> d = 7 \<or> d = 8 \<or> d = 9"
    by arith
  then show ?thesis by auto
qed

lemma decimal_digits: "c \<in> set (decimal n) \<Longrightarrow> 48 \<le> c \<and> c \<le> 57"
proof (induction n rule: decimal.induct)
  case (1 n)
  show ?case
  proof (cases "n < 10")
    case True
    with "1.prems" have "c = word_of_nat (48 + n)"
      by (subst (asm) decimal.simps) simp
    with True digit_code_unit show ?thesis by blast
  next
    case False
    with "1.prems" have "c \<in> set (decimal (n div 10)) \<or> c = word_of_nat (48 + n mod 10)"
      by (subst (asm) decimal.simps) auto
    then show ?thesis
    proof
      assume "c \<in> set (decimal (n div 10))"
      with False "1.IH" show ?thesis by blast
    next
      assume "c = word_of_nat (48 + n mod 10)"
      moreover have "n mod 10 < 10" by simp
      ultimately show ?thesis using digit_code_unit by blast
    qed
  qed
qed

text \<open>
  C9. When \<open>uploadPhotoToGCS\<close> returns, the file name is the storage key of the
  specification for the identifier passed and the time of the call, and the bucket holds
  under that name the buffer that sharp produced, with content type \<open>image/jpeg\<close>. When
  POST /api/todos/:id/photo answers 200, the todo found has \<open>hasPhoto = true\<close> and that
  key, built from its own identifier, as \<open>photoFilename\<close>, and the bucket holds the
  object. When POST /api/todos answers 201 with a todo that has a photo, the key is built
  from the identifier of the new todo, and the bucket holds the object.
\<close>

theorem storage_key_recorded:
  "(uploadPhotoToGCS e buf todoId bkt = Inr (filename, b') \<longrightarrow>
      filename = spec_storageKey todoId (now e) \<and>
      (\<exists>optimized. sharp e buf = Some optimized \<and>
         b' filename = Some \<lparr>content = optimized, contentType = ascii ''image/jpeg''\<rparr>)) \<and>
   (k < length (todos s) \<and> todo_id (todos s ! k) = i \<and> (\<forall>j<k. todo_id (todos s ! j) \<noteq> i) \<and>
    status (fst (post_photo (Some i) (Some f) e s)) = 200 \<longrightarrow>
      todos (snd (post_photo (Some i) (Some f) e s)) =
        (todos s)[k := (todos s ! k)\<lparr>hasPhoto := True,
                                     photoFilename := Some (spec_storageKey i (now e))\<rparr>] \<and>
      (\<exists>b2 optimized. bucket (snd (post_photo (Some i) (Some f) e s)) = Some b2 \<and>
         sharp e (buffer f) = Some optimized \<and>
         b2 (spec_storageKey i (now e)) =
           Some \<lparr>content = optimized, contentType = ascii ''image/jpeg''\<rparr>)) \<and>
   (fst (post_todos text_v (Some f) e s) = \<lparr>status = 201, body = TodoJson newTodo\<rparr> \<and>
    hasPhoto newTodo \<longrightarrow>
      todo_id newTodo = nextId s \<and>
      photoFilename newTodo = Some (spec_storageKey (nextId s) (now e)) \<and>
      (\<exists>b2 optimized. bucket (snd (post_todos text_v (Some f) e s)) = Some b2 \<and>
         sharp e (buffer f) = Some optimized \<and>
         b2 (spec_storageKey (nextId s) (now e)) =
           Some \<lparr>content = optimized, contentType = ascii ''image/jpeg''\<rparr>))"
proof (intro conjI impI)
  assume "uploadPhotoToGCS e buf todoId bkt = Inr (filename, b')"
  then show "filename = spec_storageKey todoId (now e)"
    and "\<exists>optimized. sharp e buf = Some optimized \<and>
         b' filename = Some \<lparr>content = optimized, contentType = ascii ''image/jpeg''\<rparr>"
    by (auto simp: uploadPhotoToGCS_Inr)
next
  assume h: "k < length (todos s) \<and> todo_id (todos s ! k) = i \<and> (\<forall>j<k. todo_id (todos s ! j) \<noteq> i) \<and>
    status (fst (post_photo (Some i) (Some f) e s)) = 200"
  then have fi: "findIndex (matches (Some i)) (todos s) = Some k"
    by (simp add: first_with_id)
  from h have st: "status (fst (post_photo (Some i) (Some f) e s)) = 200" by simp
  from fi st obtain b where b: "bucket s = Some b"
    by (cases "bucket s") (simp_all add: post_photo_unconfigured error_response_def)
  let ?b1 = "delete_existing_photo e (todos s ! k) b"
  from fi b st obtain res where res: "uploadPhotoToGCS e (buffer f) i (Some ?b1) = Inr res"
    by (cases "uploadPhotoToGCS e (buffer f) i (Some ?b1)")
      (simp_all add: post_photo_found error_response_def)
  then have up: "uploadPhotoToGCS e (buffer f) i (Some ?b1) = Inr (fst res, snd res)" by simp
  from up obtain optimized where opt: "sharp e (buffer f) = Some optimized"
    and name: "fst res = spec_storageKey i (now e)"
    and b2: "snd res = ?b1(fst res \<mapsto> \<lparr>content = optimized, contentType = ascii ''image/jpeg''\<rparr>)"
    unfolding uploadPhotoToGCS_Inr by auto
  have pp: "post_photo (Some i) (Some f) e s =
      (\<lparr>status = 200,
        body = TodoJson ((todos s ! k)\<lparr>hasPhoto := True, photoFilename := Some (fst res)\<rparr>)\<rparr>,
       s\<lparr>todos := (todos s)[k := (todos s ! k)\<lparr>hasPhoto := True, photoFilename := Some (fst res)\<rparr>],
         bucket := Some (snd res)\<rparr>)"
    using fi b res by (simp add: post_photo_found)
  show "todos (snd (post_photo (Some i) (Some f) e s)) =
        (todos s)[k := (todos s ! k)\<lparr>hasPhoto := True,
                                     photoFilename := Some (spec_storageKey i (now e))\<rparr>]"
    by (subst pp) (simp add: name)
  show "\<exists>b2 optimized. bucket (snd (post_photo (Some i) (Some f) e s)) = Some b2 \<and>
         sharp e (buffer f) = Some optimized \<and>
         b2 (spec_storageKey i (now e)) =
           Some \<lparr>content = optimized, contentType = ascii ''image/jpeg''\<rparr>"
    by (subst pp) (use opt name b2 in simp)
next
  assume h: "fst (post_todos text_v (Some f) e s) = \<lparr>status = 201, body = TodoJson newTodo\<rparr> \<and>
    hasPhoto newTodo"
  then obtain t where t: "text_v = Some t" "t \<noteq> []" "trim t \<noteq> []"
    by (cases text_v) (auto simp: post_todos_def error_response_def split: if_splits)
  from h t obtain b where b: "bucket s = Some b"
    by (cases "bucket s") (auto simp: post_todos_def push_created_def Let_def)
  from h t b obtain res where res: "uploadPhotoToGCS e (buffer f) (nextId s) (Some b) = Inr res"
    by (cases "uploadPhotoToGCS e (buffer f) (nextId s) (Some b)")
      (auto simp: post_todos_def push_created_def Let_def)
  then have up: "uploadPhotoToGCS e (buffer f) (nextId s) (Some b) = Inr (fst res, snd res)" by simp
  from up obtain optimized where opt: "sharp e (buffer f) = Some optimized"
    and name: "fst res = spec_storageKey (nextId s) (now e)"
    and b2: "snd res = b(fst res \<mapsto> \<lparr>content = optimized, contentType = ascii ''image/jpeg''\<rparr>)"
    unfolding uploadPhotoToGCS_Inr by auto
  have pt: "post_todos text_v (Some f) e s =
      push_created \<lparr>todo_id = nextId s, todo_text = trim t, completed = False, hasPhoto = True,
                     photoFilename = Some (fst res)\<rparr>
        (s\<lparr>nextId := nextId s + 1, bucket := Some (snd res)\<rparr>)"
    using t b res by (simp add: post_todos_def Let_def split: prod.splits)
  from h have nt: "newTodo = \<lparr>todo_id = nextId s, todo_text = trim t, completed = False,
      hasPhoto = True, photoFilename = Some (fst res)\<rparr>"
    unfolding pt by (simp add: push_created_def)
  show "todo_id newTodo = nextId s" by (simp add: nt)
  show "photoFilename newTodo = Some (spec_storageKey (nextId s) (now e))"
    by (simp add: nt name)
  show "\<exists>b2 optimized. bucket (snd (post_todos text_v (Some f) e s)) = Some b2 \<and>
         sharp e (buffer f) = Some optimized \<and>
         b2 (spec_storageKey (nextId s) (now e)) =
           Some \<lparr>content = optimized, contentType = ascii ''image/jpeg''\<rparr>"
    by (subst pt) (use opt name b2 in \<open>simp add: push_created_def\<close>)
qed

theorem storage_key_recorded_witness:
  "uploadPhotoToGCS env_ok (buffer jpeg_upload) 1 (Some Map.empty) =
     Inr (ascii ''todos/1/1700000000000.jpg'',
          [ascii ''todos/1/1700000000000.jpg'' \<mapsto>
             \<lparr>content = [0xFF, 0xD8, 0xFF, 0xD9], contentType = ascii ''image/jpeg''\<rparr>]) \<and>
   status (fst (post_photo (Some 1) (Some jpeg_upload) env_ok (initial_state (Some Map.empty)))) = 200 \<and>
   todos (snd (post_photo (Some 1) (Some jpeg_upload) env_ok (initial_state (Some Map.empty)))) ! 0 =
     \<lparr>todo_id = 1, todo_text = ascii ''Welcome to your todo app!'', completed = False,
      hasPhoto = True, photoFilename = Some (ascii ''todos/1/1700000000000.jpg'')\<rparr> \<and>
   fst (post_todos (Some (ascii ''Buy milk'')) (Some jpeg_upload) env_ok (initial_state (Some Map.empty))) =
     \<lparr>status = 201,
      body = TodoJson \<lparr>todo_id = 3, todo_text = ascii ''Buy milk'', completed = False,
                       hasPhoto = True, photoFilename = Some (ascii ''todos/3/1700000000000.jpg'')\<rparr>\<rparr>"
  using storage_key_recorded [where e = env_ok and buf = "buffer jpeg_upload" and todoId = 1
      and bkt = "Some Map.empty" and filename = "ascii ''todos/1/1700000000000.jpg''"
      and b' = "[ascii ''todos/1/1700000000000.jpg'' \<mapsto>
             \<lparr>content = [0xFF, 0xD8, 0xFF, 0xD9], contentType = ascii ''image/jpeg''\<rparr>]"
      and k = 0 and i = 1 and s = "initial_state (Some Map.empty)" and f = jpeg_upload
      and text_v = "Some (ascii ''Buy milk'')"
      and newTodo = "\<lparr>todo_id = 3, todo_text = ascii ''Buy milk'', completed = False,
                       hasPhoto = True, photoFilename = Some (ascii ''todos/3/1700000000000.jpg'')\<rparr>"]
  by (simp add: post_photo_def post_todos_def push_created_def initial_state_def seed_todos_def
      uploadPhotoToGCS_def delete_existing_photo_def file_save_def env_ok_def jpeg_upload_def
      numberToString_def decimal.simps Let_def ascii_def matches_def trim_def isWhiteSpace_def
      spec_storageKey_def)

section \<open>Detaching a photo\<close>

text \<open>
  C2, as the code has it. For the first todo with the identifier of a
  DELETE /api/todos/:id/photo request: without an attachment the answer is 404 and the
  state is as it was; with an attachment, when the bucket is not configured or the
  deletion in the bucket succeeds, the answer is 200 with the todo, whose two attachment
  fields are cleared; with an attachment, when the deletion in the bucket fails, the
  answer is 500 and the state, the attachment fields included, is as it was.
\<close>

theorem delete_photo_detach:
  "k < length (todos s) \<and> todo_id (todos s ! k) = i \<and> (\<forall>j<k. todo_id (todos s ! j) \<noteq> i) \<longrightarrow>
     (\<not> (hasPhoto (todos s ! k) \<and> truthy (photoFilename (todos s ! k))) \<longrightarrow>
        delete_photo (Some i) e s = (error_response 404 ''No photo attached to this todo'', s)) \<and>
     (hasPhoto (todos s ! k) \<and> truthy (photoFilename (todos s ! k)) \<and>
      (bucket s = None \<or> delete_ok e) \<longrightarrow>
        fst (delete_photo (Some i) e s) =
          \<lparr>status = 200, body = TodoJson ((todos s ! k)\<lparr>hasPhoto := False, photoFilename := None\<rparr>)\<rparr> \<and>
        todos (snd (delete_photo (Some i) e s)) =
          (todos s)[k := (todos s ! k)\<lparr>hasPhoto := False, photoFilename := None\<rparr>]) \<and>
     (hasPhoto (todos s ! k) \<and> truthy (photoFilename (todos s ! k)) \<and>
      bucket s \<noteq> None \<and> \<not> delete_ok e \<longrightarrow>
        delete_photo (Some i) e s = (error_response 500 ''Failed to delete photo'', s))"
proof (intro impI)
  assume "k < length (todos s) \<and> todo_id (todos s ! k) = i \<and> (\<forall>j<k. todo_id (todos s ! j) \<noteq> i)"
  then have fi: "findIndex (matches (Some i)) (todos s) = Some k"
    by (rule first_with_id)
  show "(\<not> (hasPhoto (todos s ! k) \<and> truthy (photoFilename (todos s ! k))) \<longrightarrow>
        delete_photo (Some i) e s = (error_response 404 ''No photo attached to this todo'', s)) \<and>
     (hasPhoto (todos s ! k) \<and> truthy (photoFilename (todos s ! k)) \<and>
      (bucket s = None \<or> delete_ok e) \<longrightarrow>
        fst (delete_photo (Some i) e s) =
          \<lparr>status = 200, body = TodoJson ((todos s ! k)\<lparr>hasPhoto := False, photoFilename := None\<rparr>)\<rparr> \<and>
        todos (snd (delete_photo (Some i) e s)) =
          (todos s)[k := (todos s ! k)\<lparr>hasPhoto := False, photoFilename := None\<rparr>]) \<and>
     (hasPhoto (todos s ! k) \<and> truthy (photoFilename (todos s ! k)) \<and>
      bucket s \<noteq> None \<and> \<not> delete_ok e \<longrightarrow>
        delete_photo (Some i) e s = (error_response 500 ''Failed to delete photo'', s))"
  proof (intro conjI impI)
    assume "\<not> (hasPhoto (todos s ! k) \<and> truthy (photoFilename (todos s ! k)))"
    with fi show "delete_photo (Some i) e s = (error_response 404 ''No photo attached to this todo'', s)"
      by (auto simp: delete_photo_def truthy_def Let_def split: option.splits)
  next
    assume h: "hasPhoto (todos s ! k) \<and> truthy (photoFilename (todos s ! k)) \<and>
      (bucket s = None \<or> delete_ok e)"
    with fi show "fst (delete_photo (Some i) e s) =
          \<lparr>status = 200, body = TodoJson ((todos s ! k)\<lparr>hasPhoto := False, photoFilename := None\<rparr>)\<rparr>"
      by (auto simp: delete_photo_def truthy_def file_delete_def Let_def split: option.splits)
    from fi h show "todos (snd (delete_photo (Some i) e s)) =
          (todos s)[k := (todos s ! k)\<lparr>hasPhoto := False, photoFilename := None\<rparr>]"
      by (auto simp: delete_photo_def truthy_def file_delete_def Let_def split: option.splits)
  next
    assume "hasPhoto (todos s ! k) \<and> truthy (photoFilename (todos s ! k)) \<and>
      bucket s \<noteq> None \<and> \<not> delete_ok e"
    with fi show "delete_photo (Some i) e s = (error_response 500 ''Failed to delete photo'', s)"
      by (auto simp: delete_photo_def truthy_def file_delete_def Let_def split: option.splits)
  qed
qed

theorem delete_photo_detach_witness:
  "delete_photo (Some 2) env_ok linked_state =
     (error_response 404 ''No photo attached to this todo'', linked_state) \<and>
   fst (delete_photo (Some 1) env_ok linked_state) =
     \<lparr>status = 200, body = TodoJson ((todos linked_state ! 0)\<lparr>hasPhoto := False, photoFilename := None\<rparr>)\<rparr> \<and>
   delete_photo (Some 1) env_delete_fails linked_state =
     (error_response 500 ''Failed to delete photo'', linked_state)"
  using delete_photo_detach [where s = linked_state and k = 1 and i = 2 and e = env_ok]
    delete_photo_detach [where s = linked_state and k = 0 and i = 1 and e = env_ok]
    delete_photo_detach [where s = linked_state and k = 0 and i = 1 and e = env_delete_fails]
    example_key_nonempty
  by (simp add: linked_state_def truthy_def env_ok_def env_delete_fails_def)

text \<open>
  C2 as it is written, that a detach always clears the attachment fields, fails where
  the deletion in the bucket fails: the answer is 500 and the todo keeps its photo.
\<close>

theorem delete_photo_failure_counterexample:
  "status (fst (delete_photo (Some 1) env_delete_fails linked_state)) = 500 \<and>
   hasPhoto (todos (snd (delete_photo (Some 1) env_delete_fails linked_state)) ! 0) \<and>
   photoFilename (todos (snd (delete_photo (Some 1) env_delete_fails linked_state)) ! 0) =
     Some example_key"
  using example_key_nonempty
  by (simp add: delete_photo_def linked_state_def matches_def file_delete_def
      env_delete_fails_def env_ok_def error_response_def)

section \<open>Replacing a photo when the upload fails\<close>

text \<open>
  C1. The first seed todo has a photo under \<open>example_key\<close>. A new photo is posted for
  it; the deletion of the old object succeeds and the save of the new one fails. The
  answer is 500, the bucket no longer holds \<open>example_key\<close>, and the todo still has
  \<open>hasPhoto = true\<close> and \<open>example_key\<close> as its file name.
\<close>

theorem post_photo_replace_dangling:
  "status (fst (post_photo (Some 1) (Some jpeg_upload) env_save_fails linked_state)) = 500 \<and>
   hasPhoto (todos (snd (post_photo (Some 1) (Some jpeg_upload) env_save_fails linked_state)) ! 0) \<and>
   photoFilename (todos (snd (post_photo (Some 1) (Some jpeg_upload) env_save_fails linked_state)) ! 0) =
     Some example_key \<and>
   bucket linked_state =
     Some [example_key \<mapsto> \<lparr>content = [0xFF, 0xD8, 0xFF, 0xD9], contentType = ascii ''image/jpeg''\<rparr>] \<and>
   bucket (snd (post_photo (Some 1) (Some jpeg_upload) env_save_fails linked_state)) = Some Map.empty"
  using example_key_nonempty
  by (simp add: post_photo_def linked_state_def matches_def file_delete_def file_save_def
      delete_existing_photo_def uploadPhotoToGCS_def jpeg_upload_def
      env_save_fails_def env_ok_def error_response_def Let_def)

section \<open>Uploads that the filter or the size limit rejects\<close>

text \<open>
  The upload middleware runs before the route handler, so a rejected upload changes
  nothing. A file of another MIME type and a JPEG file above the size limit are both
  answered with status 500 and an HTML page; any other file reaches the handler.
\<close>

lemma upload_rejected_no_effect:
  "(mimetype f \<noteq> ascii ''image/jpeg'' \<longrightarrow>
      route (PostPhoto rid (Some f)) e s = (\<lparr>status = 500, body = HtmlErrorPage\<rparr>, s) \<and>
      route (PostTodos text_v (Some f)) e s = (\<lparr>status = 500, body = HtmlErrorPage\<rparr>, s)) \<and>
   (mimetype f = ascii ''image/jpeg'' \<and> 5 * 1024 * 1024 < length (buffer f) \<longrightarrow>
      route (PostPhoto rid (Some f)) e s = (\<lparr>status = 500, body = HtmlErrorPage\<rparr>, s) \<and>
      route (PostTodos text_v (Some f)) e s = (\<lparr>status = 500, body = HtmlErrorPage\<rparr>, s)) \<and>
   (mimetype f = ascii ''image/jpeg'' \<and> length (buffer f) \<le> 5 * 1024 * 1024 \<longrightarrow>
      route (PostPhoto rid (Some f)) e s = post_photo rid (Some f) e s \<and>
      route (PostTodos text_v (Some f)) e s = post_todos text_v (Some f) e s)"
  by (simp add: route_def upload_single_def fileFilter_def fileSize_limit_def default_error_handler_def)

text \<open>
  The error middleware of the source would not answer the error of the file filter with
  a status of the 400 class either, if it were reached.
\<close>

lemma error_middleware_filter_error:
  "fileFilter png_upload = Inl (PlainError ''Only JPEG files are allowed'') \<and>
   error_middleware (PlainError ''Only JPEG files are allowed'') =
     \<lparr>status = 500, body = ErrorJson ''Only JPEG files are allowed''\<rparr>"
  by (simp add: fileFilter_def png_upload_def ascii_def error_middleware_def error_response_def)

lemma oversize_rejected: "upload_single (Some oversize_upload) = Inl (MulterError ''File too large'')"
  by (simp add: upload_single_def fileFilter_def oversize_upload_def)

text \<open>
  C4. A PNG file, and a JPEG file of one byte more than 5 MiB, posted to either route are
  answered with status 500 and the HTML page of the handler of last resort; the state is
  as it was.
\<close>

theorem wrong_mimetype_status:
  "route (PostPhoto (Some 1) (Some png_upload)) env_ok linked_state =
     (\<lparr>status = 500, body = HtmlErrorPage\<rparr>, linked_state) \<and>
   route (PostTodos (Some (ascii ''Buy milk'')) (Some png_upload)) env_ok linked_state =
     (\<lparr>status = 500, body = HtmlErrorPage\<rparr>, linked_state) \<and>
   route (PostPhoto (Some 1) (Some oversize_upload)) env_ok linked_state =
     (\<lparr>status = 500, body = HtmlErrorPage\<rparr>, linked_state) \<and>
   route (PostTodos (Some (ascii ''Buy milk'')) (Some oversize_upload)) env_ok linked_state =
     (\<lparr>status = 500, body = HtmlErrorPage\<rparr>, linked_state)"
  by (simp add: route_def png_rejected oversize_rejected default_error_handler_def)

section \<open>Identifiers\<close>

lemma id_inv_iff:
  "id_inv s \<longleftrightarrow>
     (\<forall>i\<in>set (map todo_id (todos s)). i < nextId s) \<and> distinct (map todo_id (todos s))"
  by (auto simp: id_inv_def list_all_iff)

lemma ids_update:
  "todo_id y = todo_id (xs ! k) \<Longrightarrow> map todo_id (xs[k := y]) = map todo_id xs"
proof (cases "k < length xs")
  case True
  assume "todo_id y = todo_id (xs ! k)"
  with True show ?thesis by (simp add: map_update list_update_same_conv)
next
  case False
  then show ?thesis by (simp add: list_update_beyond)
qed

lemma ids_splice1: "map todo_id (splice1 k xs) = splice1 k (map todo_id xs)"
  by (simp add: splice1_def take_map drop_map)

lemma in_set_splice1D: "x \<in> set (splice1 k xs) \<Longrightarrow> x \<in> set xs"
  by (auto simp: splice1_def dest: in_set_takeD in_set_dropD)

lemma distinct_splice1: "distinct xs \<Longrightarrow> distinct (splice1 k xs)"
proof -
  assume d: "distinct xs"
  have "set (take k xs) \<inter> set (drop (Suc k) xs) = {}"
    using d by (rule set_take_disj_set_drop_if_distinct) simp
  with d show ?thesis by (simp add: splice1_def)
qed

text \<open>What each handler does to the identifiers, the counter and the status.\<close>

lemma put_todo_ids:
  "map todo_id (todos (snd (put_todo rid v s))) = map todo_id (todos s) \<and>
   nextId (snd (put_todo rid v s)) = nextId s \<and> status (fst (put_todo rid v s)) \<noteq> 201"
  by (cases v)
    (simp_all add: put_todo_def error_response_def ids_update Let_def split: option.splits)

lemma get_todos_ids:
  "snd (get_todos s) = s \<and> status (fst (get_todos s)) \<noteq> 201"
  by (simp add: get_todos_def)

lemma get_photo_ids:
  "snd (get_photo rid e s) = s \<and> status (fst (get_photo rid e s)) \<noteq> 201"
  by (simp add: get_photo_def error_response_def Let_def split: option.splits sum.splits)

lemma delete_photo_ids:
  "map todo_id (todos (snd (delete_photo rid e s))) = map todo_id (todos s) \<and>
   nextId (snd (delete_photo rid e s)) = nextId s \<and> status (fst (delete_photo rid e s)) \<noteq> 201"
  by (simp add: delete_photo_def error_response_def ids_update Let_def
      split: option.splits sum.splits)

lemma post_photo_ids:
  "map todo_id (todos (snd (post_photo rid upl e s))) = map todo_id (todos s) \<and>
   nextId (snd (post_photo rid upl e s)) = nextId s \<and> status (fst (post_photo rid upl e s)) \<noteq> 201"
  by (simp add: post_photo_def error_response_def ids_update Let_def
      split: option.splits sum.splits prod.splits)

lemma delete_todo_ids:
  "(\<exists>k. map todo_id (todos (snd (delete_todo rid e s))) = splice1 k (map todo_id (todos s)) \<or>
        todos (snd (delete_todo rid e s)) = todos s) \<and>
   nextId (snd (delete_todo rid e s)) = nextId s \<and> status (fst (delete_todo rid e s)) \<noteq> 201"
proof (cases "findIndex (matches rid) (todos s)")
  case None
  then show ?thesis
    by (simp add: delete_todo_def delete_todo_during_def delete_todo_start_unknown error_response_def)
next
  case (Some k)
  from delete_todo_found [OF Some, of e] show ?thesis
    by (auto simp: ids_splice1)
qed

lemma post_todos_ids:
  "(snd (post_todos text_v upl e s) = s \<and> status (fst (post_todos text_v upl e s)) \<noteq> 201) \<or>
   (\<exists>newTodo. fst (post_todos text_v upl e s) = \<lparr>status = 201, body = TodoJson newTodo\<rparr> \<and>
      todo_id newTodo = nextId s \<and>
      todos (snd (post_todos text_v upl e s)) = todos s @ [newTodo] \<and>
      nextId (snd (post_todos text_v upl e s)) = nextId s + 1)"
  by (simp add: post_todos_def push_created_def error_response_def Let_def
      split: option.splits sum.splits prod.splits)

text \<open>One request: either no identifier is assigned, or \<open>nextId\<close> is and the counter advances.\<close>

lemma route_step:
  "((map todo_id (todos (snd (route rq e s))) = map todo_id (todos s) \<or>
     (\<exists>k. map todo_id (todos (snd (route rq e s))) = splice1 k (map todo_id (todos s)))) \<and>
    nextId (snd (route rq e s)) = nextId s \<and> status (fst (route rq e s)) \<noteq> 201) \<or>
   (\<exists>newTodo. fst (route rq e s) = \<lparr>status = 201, body = TodoJson newTodo\<rparr> \<and>
      todo_id newTodo = nextId s \<and>
      todos (snd (route rq e s)) = todos s @ [newTodo] \<and>
      nextId (snd (route rq e s)) = nextId s + 1)"
proof (cases rq)
  case GetTodos
  then show ?thesis using get_todos_ids [of s] by (simp add: route_def)
next
  case (PostTodos text_v part)
  show ?thesis
  proof (cases "upload_single part")
    case (Inl err)
    with PostTodos show ?thesis
      by (cases err) (simp_all add: route_def default_error_handler_def)
  next
    case (Inr upl)
    with PostTodos post_todos_ids [of text_v upl e s] show ?thesis
      by (auto simp: route_def)
  qed
next
  case (PutTodo rid v)
  then show ?thesis using put_todo_ids [of rid v s] by (simp add: route_def)
next
  case (DeleteTodo rid)
  then show ?thesis using delete_todo_ids [of rid e s] by (auto simp: route_def)
next
  case (GetPhoto rid)
  then show ?thesis using get_photo_ids [of rid e s] by (simp add: route_def)
next
  case (PostPhoto rid part)
  show ?thesis
  proof (cases "upload_single part")
    case (Inl err)
    with PostPhoto show ?thesis
      by (cases err) (simp_all add: route_def default_error_handler_def)
  next
    case (Inr upl)
    with PostPhoto post_photo_ids [of rid upl e s] show ?thesis
      by (simp add: route_def)
  qed
next
  case (DeletePhoto rid)
  then show ?thesis using delete_photo_ids [of rid e s] by (simp add: route_def)
qed

lemma route_id_inv:
  assumes "id_inv s"
  shows "id_inv (snd (route rq e s))"
  using route_step [of rq e s] assms
  unfolding id_inv_iff
  by (elim disjE conjE exE) (auto simp: distinct_splice1 dest!: in_set_splice1D)

lemma route_created:
  "(created_id (fst (route rq e s)) = [] \<and> nextId (snd (route rq e s)) = nextId s) \<or>
   (created_id (fst (route rq e s)) = [nextId s] \<and> nextId (snd (route rq e s)) = nextId s + 1)"
  using route_step [of rq e s]
  by (elim disjE conjE exE) (simp_all add: created_id_def)

lemma exec_id_inv: "id_inv s \<Longrightarrow> id_inv (exec reqs s)"
  by (induction reqs arbitrary: s) (simp_all add: route_id_inv)

lemma created_ids_bounds:
  "nextId s \<le> nextId (exec reqs s) \<and>
   (\<forall>i\<in>set (created_ids reqs s). nextId s \<le> i \<and> i < nextId (exec reqs s)) \<and>
   sorted_wrt (<) (created_ids reqs s)"
proof (induction reqs arbitrary: s)
  case Nil
  show ?case by simp
next
  case (Cons re rest)
  let ?s1 = "snd (route (fst re) (snd re) s)"
  note ih = Cons.IH [of ?s1]
  from route_created [of "fst re" "snd re" s] show ?case
  proof
    assume "created_id (fst (route (fst re) (snd re) s)) = [] \<and> nextId ?s1 = nextId s"
    with ih show ?thesis by simp
  next
    assume "created_id (fst (route (fst re) (snd re) s)) = [nextId s] \<and> nextId ?s1 = nextId s + 1"
    with ih show ?thesis by (auto simp: sorted_wrt_append)
  qed
qed

lemma initial_state_id_inv: "id_inv (initial_state b)"
  by (simp add: id_inv_def initial_state_def seed_todos_def)


lemma create_then_delete_exec:
  "exec create_then_delete (initial_state None) = \<lparr>todos = seed_todos, nextId = 4, bucket = None\<rparr>"
  by (simp add: create_then_delete_def route_def upload_single_def post_todos_def push_created_def
      delete_todo_def delete_todo_during_def delete_todo_start_def splice_and_respond_def
      splice1_def matches_def initial_state_def seed_todos_def
      trim_def isWhiteSpace_def ascii_def Let_def)

lemma create_then_delete_created: "created_ids create_then_delete (initial_state None) = [3]"
  by (simp add: create_then_delete_def route_def upload_single_def post_todos_def push_created_def
      delete_todo_def delete_todo_during_def delete_todo_start_def splice_and_respond_def
      splice1_def matches_def initial_state_def seed_todos_def created_id_def
      trim_def isWhiteSpace_def ascii_def Let_def)


text \<open>
  C5. After any sequence of requests to a fresh process, a request that is answered with
  status 201 (only the creation of a todo is) returns a new todo whose identifier is
  greater than the identifier of every todo of the collection, of every seed todo and
  of every todo created before, deleted or not; the identifiers created so far are
  strictly increasing, and the identifiers of the collection stay distinct.
\<close>

theorem ids_strictly_increasing:
  assumes "s = exec reqs (initial_state b)"
    and "route rq e s = (r, s')"
    and "status r = 201"
  shows "\<exists>newTodo. body r = TodoJson newTodo \<and>
           todos s' = todos s @ [newTodo] \<and>
           (\<forall>u\<in>set (todos s). todo_id u < todo_id newTodo) \<and>
           (\<forall>u\<in>set seed_todos. todo_id u < todo_id newTodo) \<and>
           (\<forall>i\<in>set (created_ids reqs (initial_state b)). i < todo_id newTodo) \<and>
           sorted_wrt (<) (created_ids reqs (initial_state b)) \<and>
           distinct (map todo_id (todos s'))"
proof -
  have inv: "id_inv s"
    unfolding assms(1) by (rule exec_id_inv) (rule initial_state_id_inv)
  from route_id_inv [OF inv, of rq e] assms(2) have inv': "id_inv s'" by simp
  from route_step [of rq e s] assms(2,3)
  obtain newTodo where r: "r = \<lparr>status = 201, body = TodoJson newTodo\<rparr>"
    and nid: "todo_id newTodo = nextId s" and td: "todos s' = todos s @ [newTodo]"
    by auto
  from created_ids_bounds [of "initial_state b" reqs]
  have mono: "nextId (initial_state b) \<le> nextId s"
    and below: "\<forall>i\<in>set (created_ids reqs (initial_state b)). i < nextId s"
    and sorted: "sorted_wrt (<) (created_ids reqs (initial_state b))"
    unfolding assms(1) by auto
  from inv have old: "\<forall>u\<in>set (todos s). todo_id u < nextId s"
    by (simp add: id_inv_def list_all_iff)
  from mono have seeds: "\<forall>u\<in>set seed_todos. todo_id u < nextId s"
    by (simp add: initial_state_def seed_todos_def)
  from inv' have "distinct (map todo_id (todos s'))"
    by (simp add: id_inv_def)
  with r td nid old seeds below sorted show ?thesis by simp
qed


theorem ids_strictly_increasing_witness:
  "exec create_then_delete (initial_state None) = \<lparr>todos = seed_todos, nextId = 4, bucket = None\<rparr> \<and>
   created_ids create_then_delete (initial_state None) = [3] \<and>
   fst (route (PostTodos (Some (ascii ''Call home'')) None) env_ok
          (exec create_then_delete (initial_state None))) =
     \<lparr>status = 201,
      body = TodoJson \<lparr>todo_id = 4, todo_text = ascii ''Call home'', completed = False,
                       hasPhoto = False, photoFilename = None\<rparr>\<rparr> \<and>
   map todo_id (todos (snd (route (PostTodos (Some (ascii ''Call home'')) None) env_ok
          (exec create_then_delete (initial_state None))))) = [1, 2, 4]"
  using ids_strictly_increasing [where s = "exec create_then_delete (initial_state None)"
      and reqs = create_then_delete and b = None
      and rq = "PostTodos (Some (ascii ''Call home'')) None" and e = env_ok
      and r = "fst (route (PostTodos (Some (ascii ''Call home'')) None) env_ok
          (exec create_then_delete (initial_state None)))"
      and s' = "snd (route (PostTodos (Some (ascii ''Call home'')) None) env_ok
          (exec create_then_delete (initial_state None)))"]
  by (simp add: create_then_delete_exec create_then_delete_created route_def upload_single_def
      post_todos_def push_created_def seed_todos_def trim_def isWhiteSpace_def ascii_def Let_def)

end
